theory Spec2Isabelle
  imports Main "HOL-Library.Word"
begin

unbundle bit_operations_syntax

section \<open>The outgoing high-priority status worker (OutHighPriority.c)\<close>

text \<open>
  The worker thread \<open>OutgoingHighPriority\<close> is embedded as a step function on an explicit
  thread state. One step is one evaluation of the loop test the thread is currently
  waiting at, followed by the loop body up to the next loop test. Everything the thread
  reads from outside (the hardware registers, the process-wide flags written by other
  threads, the result of \<open>sendmsg\<close>) is supplied by an environment record; everything it
  does to the outside (sending, sleeping, closing a socket, calling the tuner) is appended
  to a trace of events.
\<close>

subsection \<open>Data\<close>

text \<open>\<open>EDMAStreamSelect\<close> of saturnregisters.h.\<close>

datatype EDMAStreamSelect = eRXDDCDMA | eTXDUCDMA | eMicCodecDMA | eSpkCodecDMA

text \<open>
  Modelled from the spec: \<open>ReadFIFOMonitorChannel\<close> belongs to the hardware access layer,
  which is not among the sources. The worker calls it with a channel and four output
  pointers; what comes back is the return value and the four values stored through the
  pointers (overflow, over-threshold, underflow, and the 16-bit count that the worker
  keeps in \<open>Word\<close>). These five values are an input here.
\<close>

record fifo_monitor =
  Depth :: "32 word"
  FIFOOverflow :: bool
  FIFOOverThreshold :: bool
  FIFOUnderflow :: bool
  Current :: "16 word"

text \<open>
  Modelled from the spec: the buffer size \<open>VHIGHPRIOTIYFROMSDRSIZE\<close> and the command bit
  \<open>VBITCHANGEPORT\<close> are macros of headers that are not among the sources
  (OutHighPriority.h, threaddata.h), as is the width of the \<open>Cmdid\<close> field. They are
  parameters of the model. The code stores at byte offsets up to 59, so it is only
  defined for a buffer of at least 60 bytes.
\<close>

record config =
  VHIGHPRIOTIYFROMSDRSIZE :: nat
  VBITCHANGEPORT :: "16 word"

text \<open>
  What the environment supplies during one step. \<open>StickyWrites\<close> and \<open>CmdidWrites\<close> are
  the bits that other threads have OR-ed into \<open>GlobalFIFOOverflows\<close> and into
  \<open>ThreadData->Cmdid\<close> since the previous step (writers that do not race with the
  worker's own read-and-clear). \<open>WaitPTTKeyInputs k\<close> is what \<open>GetP2PTTKeyInputs\<close> returns
  at tick \<open>k\<close> of the inter-frame wait.
\<close>

record hw_env =
  SDRActive :: bool
  CmdidWrites :: "16 word"
  StickyWrites :: "8 word"
  MakeSocketResult :: int
  GetP2PTTKeyInputs :: "32 word"
  GetADCOverflow :: "32 word"
  GetAnalogueIn :: "nat \<Rightarrow> 32 word"
  GetUserIOBits :: "32 word"
  ReadFIFOMonitorChannel :: "EDMAStreamSelect \<Rightarrow> fifo_monitor"
  sendmsg :: int
  MOXAsserted :: bool
  WaitPTTKeyInputs :: "nat \<Rightarrow> 32 word"

datatype event =
    EvSendmsg int "8 word list"
  | EvRequestATUTune bool
  | EvClose int
  | EvMakeSocket
  | EvUsleep nat
  | EvThreadError

text \<open>
  Where the thread is: at the test of \<open>while(!(SDRActive))\<close>, at the test of
  \<open>while(SDRActive && !InitError)\<close>, or returned.
\<close>

datatype control = Idle | Running | Exited

record thread_state =
  pc :: control
  SequenceCounter :: "32 word"
  UDPBuffer :: "8 word list"
  InitError :: bool
  ATUTuneRequest :: bool
  GlobalFIFOOverflows :: "8 word"
  ThreadError :: bool
  Active :: bool
  Socketid :: int
  Cmdid :: "16 word"
  trace :: "event list"

subsection \<open>Stores into the frame\<close>

text \<open>\<open>*(uint16_t *)(UDPBuffer+off) = htons(w)\<close>: the high byte first.\<close>

definition store_be16 :: "8 word list \<Rightarrow> nat \<Rightarrow> 16 word \<Rightarrow> 8 word list" where
  "store_be16 buf off w = buf[off := ucast (drop_bit 8 w), off + 1 := ucast w]"

text \<open>\<open>*(uint32_t *)(UDPBuffer+off) = htonl(w)\<close>.\<close>

definition store_be32 :: "8 word list \<Rightarrow> nat \<Rightarrow> 32 word \<Rightarrow> 8 word list" where
  "store_be32 buf off w =
     buf[off := ucast (drop_bit 24 w), off + 1 := ucast (drop_bit 16 w),
         off + 2 := ucast (drop_bit 8 w), off + 3 := ucast w]"

text \<open>What a receiver reads back (\<open>ntohs\<close>, \<open>ntohl\<close>).\<close>

definition load_be16 :: "8 word list \<Rightarrow> nat \<Rightarrow> 16 word" where
  "load_be16 buf off = push_bit 8 (ucast (buf ! off)) OR ucast (buf ! (off + 1))"

definition load_be32 :: "8 word list \<Rightarrow> nat \<Rightarrow> 32 word" where
  "load_be32 buf off =
     push_bit 24 (ucast (buf ! off)) OR push_bit 16 (ucast (buf ! (off + 1)))
       OR push_bit 8 (ucast (buf ! (off + 2))) OR ucast (buf ! (off + 3))"

subsection \<open>Building the frame\<close>

text \<open>
  Lines 116 to 137: sequence number, key/PTT bits, ADC overflow, the six analogue
  values and the user I/O bits. The casts to \<open>uint8_t\<close> and \<open>uint16_t\<close> are \<open>ucast\<close>.
\<close>

definition encode_status :: "hw_env \<Rightarrow> 32 word \<Rightarrow> 8 word list \<Rightarrow> 8 word list" where
  "encode_status e seqno buf0 =
    (let buf = store_be32 buf0 0 seqno;
         PTTBits = (ucast (GetP2PTTKeyInputs e) :: 8 word);
         buf = buf[4 := PTTBits];
         Byte = (ucast (GetADCOverflow e) :: 8 word);
         buf = buf[5 := Byte];
         buf = store_be16 buf 6 (ucast (GetAnalogueIn e 4));
         buf = store_be16 buf 14 (ucast (GetAnalogueIn e 0));
         buf = store_be16 buf 22 (ucast (GetAnalogueIn e 1));
         buf = store_be16 buf 49 (ucast (GetAnalogueIn e 5));
         buf = store_be16 buf 57 (ucast (GetAnalogueIn e 2));
         buf = store_be16 buf 55 (ucast (GetAnalogueIn e 3));
         Byte = (ucast (GetUserIOBits e) :: 8 word);
         buf = buf[59 := Byte]
     in buf)"

text \<open>
  The sample counts. \<open>Word\<close> is a \<open>uint16_t\<close>: in \<open>Word*4\<close>, \<open>(Word*4)/3\<close> and \<open>Word*2\<close> it
  is promoted to \<open>int\<close>, where the product cannot overflow, and the result is converted
  back to 16 bits by the assignment.
\<close>

definition mic_samples :: "16 word \<Rightarrow> 16 word" where
  "mic_samples Word = word_of_int (uint Word * 4)"

definition duc_samples :: "16 word \<Rightarrow> 16 word" where
  "duc_samples Word = word_of_int ((uint Word * 4) div 3)"

definition spk_samples :: "16 word \<Rightarrow> 16 word" where
  "spk_samples Word = word_of_int (uint Word * 2)"

text \<open>Lines 144 to 166, the flags: the value of \<open>FIFOOverflows\<close> before line 168.\<close>

definition fifo_flags :: "hw_env \<Rightarrow> 8 word" where
  "fifo_flags e =
    (let FIFOOverflows = (0 :: 8 word);
         FIFOOverflows = (if FIFOOverThreshold (ReadFIFOMonitorChannel e eRXDDCDMA)
                          then FIFOOverflows OR 1 else FIFOOverflows);
         FIFOOverflows = (if FIFOOverThreshold (ReadFIFOMonitorChannel e eMicCodecDMA)
                          then FIFOOverflows OR 2 else FIFOOverflows);
         FIFOOverflows = (if FIFOUnderflow (ReadFIFOMonitorChannel e eTXDUCDMA)
                          then FIFOOverflows OR 4 else FIFOOverflows);
         FIFOOverflows = (if FIFOUnderflow (ReadFIFOMonitorChannel e eSpkCodecDMA)
                          then FIFOOverflows OR 8 else FIFOOverflows)
     in FIFOOverflows)"

text \<open>Lines 145 to 169, the stores; \<open>G\<close> is \<open>GlobalFIFOOverflows\<close> as read at line 168.\<close>

definition encode_fifo :: "hw_env \<Rightarrow> 8 word \<Rightarrow> 8 word list \<Rightarrow> 8 word list" where
  "encode_fifo e G buf0 =
    (let buf = store_be16 buf0 31 (Current (ReadFIFOMonitorChannel e eRXDDCDMA));
         buf = store_be16 buf 33 (mic_samples (Current (ReadFIFOMonitorChannel e eMicCodecDMA)));
         buf = store_be16 buf 35 (duc_samples (Current (ReadFIFOMonitorChannel e eTXDUCDMA)));
         buf = store_be16 buf 37 (spk_samples (Current (ReadFIFOMonitorChannel e eSpkCodecDMA)));
         FIFOOverflows = fifo_flags e OR G;
         buf = buf[30 := FIFOOverflows]
     in buf)"

text \<open>The frame of one cycle: lines 116 to 169 together.\<close>

definition build_frame :: "hw_env \<Rightarrow> 32 word \<Rightarrow> 8 word \<Rightarrow> 8 word list \<Rightarrow> 8 word list" where
  "build_frame e seqno G buf = encode_fifo e G (encode_status e seqno buf)"

text \<open>The byte offsets of the fields that the cycle stores.\<close>

definition field_offsets :: "nat list" where
  "field_offsets = [0, 1, 2, 3, 4, 5, 6, 7, 14, 15, 22, 23, 30, 31, 32, 33, 34, 35, 36, 37, 38,
                    49, 50, 55, 56, 57, 58, 59]"

text \<open>A frame whose bytes outside these fields are all zero.\<close>

definition zero_outside_fields :: "8 word list \<Rightarrow> bool" where
  "zero_outside_fields f = (\<forall>i\<in>{0..<length f}. i \<in> set field_offsets \<or> f ! i = 0)"

subsection \<open>The inter-frame wait\<close>

text \<open>
  \<open>SleepCount = (MOXAsserted)? 2: 400;\<close> where \<open>SleepCount\<close> is a \<open>uint8_t\<close>: the
  \<open>int\<close> value is converted to 8 bits.
\<close>

definition SleepCount_init :: "bool \<Rightarrow> 8 word" where
  "SleepCount_init mox = word_of_int (if mox then 2 else 400)"

text \<open>
  \<open>while (SleepCount-- > 0) { ReadStatusRegister(); if ((uint8_t)GetP2PTTKeyInputs() !=
  PTTBits) break; usleep(500); }\<close>. The result is the number of \<open>usleep(500)\<close> calls made;
  \<open>k\<close> counts the ticks already done.
\<close>

function wait_loop :: "(nat \<Rightarrow> 32 word) \<Rightarrow> 8 word \<Rightarrow> nat \<Rightarrow> 8 word \<Rightarrow> nat" where
  "wait_loop reads PTTBits k SleepCount =
     (if SleepCount > 0
      then (if (ucast (reads k) :: 8 word) \<noteq> PTTBits then k
            else wait_loop reads PTTBits (Suc k) (SleepCount - 1))
      else k)"
  by pat_completeness auto
termination
  by (relation "measure (\<lambda>(reads, PTTBits, k, SleepCount). unat SleepCount)")
     (auto simp: unat_minus_one word_greater_zero_iff unat_gt_0)

declare wait_loop.simps [simp del]

text \<open>Lines 194 to 201: the number of \<open>usleep(500)\<close> calls after one send.\<close>

definition inter_frame_wait :: "hw_env \<Rightarrow> 8 word \<Rightarrow> nat" where
  "inter_frame_wait e PTTBits =
     wait_loop (WaitPTTKeyInputs e) PTTBits 0 (SleepCount_init (MOXAsserted e))"

subsection \<open>One cycle of the main loop\<close>

text \<open>Lines 113 to 201.\<close>

definition cycle :: "hw_env \<Rightarrow> thread_state \<Rightarrow> thread_state" where
  "cycle e s =
    (let buf = encode_status e (SequenceCounter s) (UDPBuffer s);
         PTTBits = (ucast (GetP2PTTKeyInputs e) :: 8 word);
         Byte = (ucast (GetUserIOBits e) :: 8 word);
         buf = encode_fifo e (GlobalFIFOOverflows s) buf;
         Error = sendmsg e;
         Byte = (drop_bit 2 Byte AND 1) XOR 1;
         ATU = (Byte \<noteq> 0);
         ticks = inter_frame_wait e PTTBits
     in s\<lparr>SequenceCounter := SequenceCounter s + 1,
           UDPBuffer := buf,
           GlobalFIFOOverflows := 0,
           ATUTuneRequest := ATU,
           InitError := (if Error = - 1 then True else InitError s),
           trace := trace s @ [EvSendmsg (Socketid s) buf, EvRequestATUTune ATU]
                      @ replicate ticks (EvUsleep 500)\<rparr>)"

subsection \<open>The thread\<close>

text \<open>Lines 207 to 212.\<close>

definition shutdown :: "thread_state \<Rightarrow> thread_state" where
  "shutdown s =
     s\<lparr>ThreadError := (if InitError s then True else ThreadError s),
       Active := False,
       pc := Exited,
       trace := trace s @ (if InitError s then [EvThreadError] else [])
                  @ [EvClose (Socketid s)]\<rparr>"

text \<open>The body of \<open>while(!(SDRActive))\<close>, lines 78 to 84.\<close>

definition idle_poll :: "config \<Rightarrow> hw_env \<Rightarrow> thread_state \<Rightarrow> thread_state" where
  "idle_poll cfg e s =
     (if Cmdid s AND VBITCHANGEPORT cfg \<noteq> 0
      then s\<lparr>Socketid := MakeSocketResult e,
             Cmdid := Cmdid s AND NOT (VBITCHANGEPORT cfg),
             trace := trace s @ [EvClose (Socketid s), EvMakeSocket, EvUsleep 100]\<rparr>
      else s\<lparr>trace := trace s @ [EvUsleep 100]\<rparr>)"

text \<open>
  Lines 90 to 101: the start of a run. The copy of the destination address and the
  filling of the \<open>iovec\<close> and \<open>msghdr\<close> structures, which always describe the whole
  buffer, are not part of the state.
\<close>

definition start_run :: "config \<Rightarrow> thread_state \<Rightarrow> thread_state" where
  "start_run cfg s =
     s\<lparr>SequenceCounter := 0,
       UDPBuffer := replicate (VHIGHPRIOTIYFROMSDRSIZE cfg) 0,
       pc := Running\<rparr>"

text \<open>The writes of the other threads to the two shared variables.\<close>

definition env_writes :: "hw_env \<Rightarrow> thread_state \<Rightarrow> thread_state" where
  "env_writes e s =
     s\<lparr>GlobalFIFOOverflows := GlobalFIFOOverflows s OR StickyWrites e,
       Cmdid := Cmdid s OR CmdidWrites e\<rparr>"

text \<open>
  One step. At \<open>Running\<close> the test is \<open>SDRActive && !InitError\<close>; when it fails the
  outer test \<open>!InitError\<close> decides between the shutdown and the idle loop.
\<close>

definition OutgoingHighPriority_step :: "config \<Rightarrow> hw_env \<Rightarrow> thread_state \<Rightarrow> thread_state" where
  "OutgoingHighPriority_step cfg e s0 =
    (let s = env_writes e s0 in
     case pc s of
       Exited \<Rightarrow> s
     | Idle \<Rightarrow> (if \<not> SDRActive e then idle_poll cfg e s else start_run cfg s)
     | Running \<Rightarrow>
         (if SDRActive e \<and> \<not> InitError s then cycle e s
          else if \<not> InitError s then s\<lparr>pc := Idle\<rparr>
          else shutdown s))"

fun run :: "config \<Rightarrow> hw_env list \<Rightarrow> thread_state \<Rightarrow> thread_state" where
  "run cfg [] s = s"
| "run cfg (e # es) s = run cfg es (OutgoingHighPriority_step cfg e s)"

text \<open>
  Lines 45 to 74: the state in which the thread reaches the idle loop for the first
  time. The buffer is an uninitialised local array: its contents are arbitrary.
\<close>

definition OutgoingHighPriority_init ::
  "config \<Rightarrow> 8 word list \<Rightarrow> int \<Rightarrow> 16 word \<Rightarrow> 8 word \<Rightarrow> bool \<Rightarrow> thread_state" where
  "OutgoingHighPriority_init cfg garbage sock cmd gfo terr =
     \<lparr>pc = Idle, SequenceCounter = 0,
      UDPBuffer = take (VHIGHPRIOTIYFROMSDRSIZE cfg)
                    (garbage @ replicate (VHIGHPRIOTIYFROMSDRSIZE cfg) 0),
      InitError = False, ATUTuneRequest = False, GlobalFIFOOverflows = gfo,
      ThreadError = terr, Active = True, Socketid = sock, Cmdid = cmd, trace = []\<rparr>"

text \<open>The frames handed to \<open>sendmsg\<close>, oldest first.\<close>

fun sent_frames :: "event list \<Rightarrow> 8 word list list" where
  "sent_frames [] = []"
| "sent_frames (EvSendmsg sock f # evs) = f # sent_frames evs"
| "sent_frames (ev # evs) = sent_frames evs"

subsection \<open>Concrete inputs\<close>

definition cfg0 :: config where
  "cfg0 = \<lparr>VHIGHPRIOTIYFROMSDRSIZE = 60, VBITCHANGEPORT = 1\<rparr>"

definition quiet_fifo :: fifo_monitor where
  "quiet_fifo = \<lparr>Depth = 0, FIFOOverflow = False, FIFOOverThreshold = False,
                  FIFOUnderflow = False, Current = 0\<rparr>"

text \<open>Transmitting, nothing changing, every send succeeding.\<close>

definition env0 :: hw_env where
  "env0 = \<lparr>SDRActive = True, CmdidWrites = 0, StickyWrites = 0, MakeSocketResult = 7,
            GetP2PTTKeyInputs = 1, GetADCOverflow = 0, GetAnalogueIn = (\<lambda>_. 0),
            GetUserIOBits = 0, ReadFIFOMonitorChannel = (\<lambda>_. quiet_fifo), sendmsg = 60,
            MOXAsserted = True, WaitPTTKeyInputs = (\<lambda>_. 1)\<rparr>"

text \<open>Receiving, no key pressed and none pressed during the wait.\<close>

definition env_rx :: hw_env where
  "env_rx = env0\<lparr>GetP2PTTKeyInputs := 0, MOXAsserted := False, WaitPTTKeyInputs := (\<lambda>_. 0)\<rparr>"

text \<open>A microphone FIFO holding 16384 locations.\<close>

definition env_deep :: hw_env where
  "env_deep = env0\<lparr>ReadFIFOMonitorChannel := (\<lambda>_. quiet_fifo\<lparr>Current := 16384\<rparr>)\<rparr>"

text \<open>The depths of the examples: 9 on the transmit channel, 10 on the speaker channel.\<close>

definition env_counts :: hw_env where
  "env_counts = env0\<lparr>ReadFIFOMonitorChannel :=
     (\<lambda>c. quiet_fifo\<lparr>Current := (case c of eRXDDCDMA \<Rightarrow> 0 | eTXDUCDMA \<Rightarrow> 9
                                      | eMicCodecDMA \<Rightarrow> 5 | eSpkCodecDMA \<Rightarrow> 10)\<rparr>)\<rparr>"

text \<open>A cycle whose send fails, and a poll while stopped.\<close>

definition env_fail :: hw_env where
  "env_fail = env0\<lparr>sendmsg := - 1\<rparr>"

definition env_stop :: hw_env where
  "env_stop = env0\<lparr>SDRActive := False\<rparr>"

definition s0 :: thread_state where
  "s0 = OutgoingHighPriority_init cfg0 [] 3 0 0 False"

section \<open>Properties\<close>

subsection \<open>Frame stores\<close>

lemma be16_roundtrip:
  "push_bit 8 (ucast (ucast (drop_bit 8 w) :: 8 word)) OR ucast (ucast w :: 8 word) = (w :: 16 word)"
  by (rule bit_word_eqI) (auto simp: bit_simps)

lemma be32_roundtrip:
  "push_bit 24 (ucast (ucast (drop_bit 24 w) :: 8 word))
     OR push_bit 16 (ucast (ucast (drop_bit 16 w) :: 8 word))
     OR push_bit 8 (ucast (ucast (drop_bit 8 w) :: 8 word))
     OR ucast (ucast w :: 8 word) = (w :: 32 word)"
proof (rule bit_word_eqI)
  fix n assume "n < LENGTH(32)"
  then show "bit (push_bit 24 (ucast (ucast (drop_bit 24 w) :: 8 word))
     OR push_bit 16 (ucast (ucast (drop_bit 16 w) :: 8 word))
     OR push_bit 8 (ucast (ucast (drop_bit 8 w) :: 8 word))
     OR ucast (ucast w :: 8 word) :: 32 word) n = bit w n"
    by (cases "n < 8"; cases "n < 16"; cases "n < 24"; auto simp add: bit_simps)
qed

lemma length_store_be16 [simp]: "length (store_be16 buf off w) = length buf"
  by (simp add: store_be16_def)

lemma length_store_be32 [simp]: "length (store_be32 buf off w) = length buf"
  by (simp add: store_be32_def)

lemma length_encode_status [simp]: "length (encode_status e q buf) = length buf"
  by (simp add: encode_status_def Let_def)

lemma length_encode_fifo [simp]: "length (encode_fifo e G buf) = length buf"
  by (simp add: encode_fifo_def Let_def)

lemma length_build_frame [simp]: "length (build_frame e q G buf) = length buf"
  by (simp add: build_frame_def)

lemma nth_store_be16:
  "store_be16 buf off w ! i =
     (if i = off + 1 \<and> i < length buf then ucast w
      else if i = off \<and> i < length buf then ucast (drop_bit 8 w) else buf ! i)"
  by (cases "off < length buf"; cases "off + 1 < length buf";
      auto simp add: store_be16_def nth_list_update list_update_beyond)

lemma nth_store_be32:
  "store_be32 buf off w ! i =
     (if i = off + 3 \<and> i < length buf then ucast w
      else if i = off + 2 \<and> i < length buf then ucast (drop_bit 8 w)
      else if i = off + 1 \<and> i < length buf then ucast (drop_bit 16 w)
      else if i = off \<and> i < length buf then ucast (drop_bit 24 w) else buf ! i)"
  by (cases "off < length buf"; cases "off + 1 < length buf"; cases "off + 2 < length buf";
      cases "off + 3 < length buf";
      auto simp add: store_be32_def nth_list_update list_update_beyond)

lemma nth_store_be32_0:
  "store_be32 buf 0 w ! i =
     (if i = 3 \<and> i < length buf then ucast w
      else if i = 2 \<and> i < length buf then ucast (drop_bit 8 w)
      else if i = 1 \<and> i < length buf then ucast (drop_bit 16 w)
      else if i = 0 \<and> i < length buf then ucast (drop_bit 24 w) else buf ! i)"
  by (simp add: nth_store_be32)

lemmas frame_defs = build_frame_def encode_status_def encode_fifo_def Let_def
  nth_store_be16 nth_store_be32_0 nth_list_update

lemma build_frame_seq:
  "60 \<le> length buf \<Longrightarrow> load_be32 (build_frame e q G buf) 0 = q"
  by (simp add: frame_defs load_be32_def be32_roundtrip del: length_greater_0_conv)

lemma build_frame_other:
  "i \<notin> set field_offsets \<Longrightarrow> build_frame e q G buf ! i = buf ! i"
  by (simp add: frame_defs field_offsets_def del: One_nat_def)

lemma build_frame_ptt:
  "60 \<le> length buf \<Longrightarrow> build_frame e q G buf ! 4 = ucast (GetP2PTTKeyInputs e)"
  by (simp add: frame_defs)

lemma build_frame_userio:
  "60 \<le> length buf \<Longrightarrow> build_frame e q G buf ! 59 = ucast (GetUserIOBits e)"
  by (simp add: frame_defs)

lemma build_frame_mask:
  "60 \<le> length buf \<Longrightarrow> build_frame e q G buf ! 30 = fifo_flags e OR G"
  by (simp add: frame_defs)

lemma build_frame_mic:
  "60 \<le> length buf \<Longrightarrow> load_be16 (build_frame e q G buf) 33 =
     mic_samples (Current (ReadFIFOMonitorChannel e eMicCodecDMA))"
  by (simp add: frame_defs load_be16_def be16_roundtrip)

lemma build_frame_duc:
  "60 \<le> length buf \<Longrightarrow> load_be16 (build_frame e q G buf) 35 =
     duc_samples (Current (ReadFIFOMonitorChannel e eTXDUCDMA))"
  by (simp add: frame_defs load_be16_def be16_roundtrip)

lemma build_frame_spk:
  "60 \<le> length buf \<Longrightarrow> load_be16 (build_frame e q G buf) 37 =
     spk_samples (Current (ReadFIFOMonitorChannel e eSpkCodecDMA))"
  by (simp add: frame_defs load_be16_def be16_roundtrip)

subsection \<open>The wait loop\<close>

lemma wait_loop_first_diff:
  "m < unat n \<Longrightarrow> (\<forall>j<m. (ucast (reads (k + j)) :: 8 word) = PTT) \<Longrightarrow>
   (ucast (reads (k + m)) :: 8 word) \<noteq> PTT \<Longrightarrow> wait_loop reads PTT k n = k + m"
proof (induction m arbitrary: k n)
  case 0
  then have "n > 0" by (simp add: word_greater_zero_iff unat_gt_0)
  with 0 show ?case by (subst wait_loop.simps) simp
next
  case (Suc m)
  then have pos: "n > 0" by (auto simp add: word_greater_zero_iff unat_gt_0 intro: Nat.gr0I)
  then have n0: "n \<noteq> 0" by auto
  have m': "m < unat (n - 1)" using Suc.prems(1) n0 by (simp add: unat_minus_one)
  have eq0: "(ucast (reads k) :: 8 word) = PTT" using Suc.prems(2) [rule_format, of 0] by simp
  have rest: "\<forall>j<m. (ucast (reads (Suc k + j)) :: 8 word) = PTT"
    using Suc.prems(2) by (metis Suc_less_eq add_Suc_shift)
  have last: "(ucast (reads (Suc k + m)) :: 8 word) \<noteq> PTT" using Suc.prems(3) by simp
  have "wait_loop reads PTT (Suc k) (n - 1) = Suc k + m"
    by (rule Suc.IH [OF m' rest last])
  then show ?case using pos eq0 by (subst wait_loop.simps) simp
qed

lemma wait_loop_all_equal:
  "(\<forall>j<unat n. (ucast (reads (k + j)) :: 8 word) = PTT) \<Longrightarrow>
   wait_loop reads PTT k n = k + unat n"
proof (induction "unat n" arbitrary: k n)
  case 0
  then have "n = 0" by (simp add: unat_eq_0)
  then show ?case by (subst wait_loop.simps) simp
next
  case (Suc m)
  then have n0: "n \<noteq> 0" by auto
  then have pos: "n > 0" by (simp add: word_greater_zero_iff)
  have m': "m = unat (n - 1)" using Suc.hyps(2) n0 by (simp add: unat_minus_one)
  have eq0: "(ucast (reads k) :: 8 word) = PTT"
    using Suc.prems [rule_format, of 0] Suc.hyps(2) by simp
  have rest: "\<forall>j<unat (n - 1). (ucast (reads (Suc k + j)) :: 8 word) = PTT"
  proof (intro allI impI)
    fix j assume "j < unat (n - 1)"
    then have "Suc j < unat n" using m' Suc.hyps(2) by simp
    then show "(ucast (reads (Suc k + j)) :: 8 word) = PTT"
      using Suc.prems by (metis add_Suc_shift)
  qed
  have "wait_loop reads PTT (Suc k) (n - 1) = Suc k + unat (n - 1)"
    by (rule Suc.hyps(1) [OF m' rest])
  then show ?case using pos eq0 m' Suc.hyps(2) by (subst wait_loop.simps) simp
qed

lemma wait_loop_le: "wait_loop reads PTT k n \<le> k + unat n"
proof (induction "unat n" arbitrary: k n)
  case 0
  then have "n = 0" by (simp add: unat_eq_0)
  then show ?case by (subst wait_loop.simps) simp
next
  case (Suc m)
  then have n0: "n \<noteq> 0" by auto
  then have pos: "n > 0" by (simp add: word_greater_zero_iff)
  have m': "m = unat (n - 1)" using Suc.hyps(2) n0 by (simp add: unat_minus_one)
  have "wait_loop reads PTT (Suc k) (n - 1) \<le> Suc k + unat (n - 1)"
    by (rule Suc.hyps(1) [OF m'])
  then show ?case using pos m' Suc.hyps(2) by (subst wait_loop.simps) simp
qed

lemma SleepCount_init_True: "SleepCount_init True = 2"
  by (simp add: SleepCount_init_def)

lemma SleepCount_init_False: "SleepCount_init False = 144"
  by (simp add: SleepCount_init_def)

subsection \<open>One cycle\<close>

lemma atu_bit: "(((drop_bit 2 B AND 1) XOR 1) \<noteq> 0) = (\<not> bit B 2)" for B :: "8 word"
  by (cases "bit B 2") (simp_all add: and_one_eq mod2_eq_if bit_iff_odd_drop_bit)

lemma cycle_fields [simp]:
  "SequenceCounter (cycle e s) = SequenceCounter s + 1"
  "UDPBuffer (cycle e s) =
     build_frame e (SequenceCounter s) (GlobalFIFOOverflows s) (UDPBuffer s)"
  "GlobalFIFOOverflows (cycle e s) = 0"
  "InitError (cycle e s) = (sendmsg e = - 1 \<or> InitError s)"
  "ATUTuneRequest (cycle e s) = (\<not> bit (ucast (GetUserIOBits e) :: 8 word) 2)"
  "pc (cycle e s) = pc s"
  "Socketid (cycle e s) = Socketid s"
  "Cmdid (cycle e s) = Cmdid s"
  "ThreadError (cycle e s) = ThreadError s"
  "Active (cycle e s) = Active s"
  by (simp_all add: cycle_def Let_def build_frame_def atu_bit)

lemma cycle_trace:
  "trace (cycle e s) =
     trace s @ [EvSendmsg (Socketid s)
                  (build_frame e (SequenceCounter s) (GlobalFIFOOverflows s) (UDPBuffer s)),
                EvRequestATUTune (\<not> bit (ucast (GetUserIOBits e) :: 8 word) 2)]
       @ replicate (inter_frame_wait e (ucast (GetP2PTTKeyInputs e))) (EvUsleep 500)"
  by (simp add: cycle_def Let_def build_frame_def atu_bit)

lemma env_writes_fields [simp]:
  "pc (env_writes e s) = pc s"
  "SequenceCounter (env_writes e s) = SequenceCounter s"
  "UDPBuffer (env_writes e s) = UDPBuffer s"
  "InitError (env_writes e s) = InitError s"
  "ATUTuneRequest (env_writes e s) = ATUTuneRequest s"
  "GlobalFIFOOverflows (env_writes e s) = GlobalFIFOOverflows s OR StickyWrites e"
  "ThreadError (env_writes e s) = ThreadError s"
  "Active (env_writes e s) = Active s"
  "Socketid (env_writes e s) = Socketid s"
  "Cmdid (env_writes e s) = Cmdid s OR CmdidWrites e"
  "trace (env_writes e s) = trace s"
  by (simp_all add: env_writes_def)

subsection \<open>Steps\<close>

lemma step_Running_cycle:
  "pc s = Running \<Longrightarrow> SDRActive e \<Longrightarrow> \<not> InitError s \<Longrightarrow>
   OutgoingHighPriority_step cfg e s = cycle e (env_writes e s)"
  by (simp add: OutgoingHighPriority_step_def Let_def)

lemma step_Running_stop:
  "pc s = Running \<Longrightarrow> \<not> SDRActive e \<Longrightarrow> \<not> InitError s \<Longrightarrow>
   OutgoingHighPriority_step cfg e s = (env_writes e s)\<lparr>pc := Idle\<rparr>"
  by (simp add: OutgoingHighPriority_step_def Let_def)

lemma step_Running_error:
  "pc s = Running \<Longrightarrow> InitError s \<Longrightarrow>
   OutgoingHighPriority_step cfg e s = shutdown (env_writes e s)"
  by (simp add: OutgoingHighPriority_step_def Let_def)

lemma step_Idle_poll:
  "pc s = Idle \<Longrightarrow> \<not> SDRActive e \<Longrightarrow>
   OutgoingHighPriority_step cfg e s = idle_poll cfg e (env_writes e s)"
  by (simp add: OutgoingHighPriority_step_def Let_def)

lemma step_Idle_start:
  "pc s = Idle \<Longrightarrow> SDRActive e \<Longrightarrow>
   OutgoingHighPriority_step cfg e s = start_run cfg (env_writes e s)"
  by (simp add: OutgoingHighPriority_step_def Let_def)

lemma step_Exited:
  "pc s = Exited \<Longrightarrow> OutgoingHighPriority_step cfg e s = env_writes e s"
  by (simp add: OutgoingHighPriority_step_def Let_def)

lemma run_Exited:
  "pc s = Exited \<Longrightarrow>
   pc (run cfg es s) = Exited \<and> trace (run cfg es s) = trace s
     \<and> ThreadError (run cfg es s) = ThreadError s \<and> Active (run cfg es s) = Active s
     \<and> Socketid (run cfg es s) = Socketid s"
  by (induction es arbitrary: s) (simp_all add: step_Exited)

lemma sent_frames_append: "sent_frames (xs @ ys) = sent_frames xs @ sent_frames ys"
  by (induction xs rule: sent_frames.induct) simp_all

lemma sent_frames_usleep [simp]: "sent_frames (replicate n (EvUsleep k)) = []"
  by (induction n) simp_all

lemma sent_frames_cycle:
  "sent_frames (trace (cycle e s)) =
     sent_frames (trace s)
       @ [build_frame e (SequenceCounter s) (GlobalFIFOOverflows s) (UDPBuffer s)]"
  by (simp add: cycle_trace sent_frames_append)

lemma run_successful_cycles:
  "pc s = Running \<Longrightarrow> \<not> InitError s \<Longrightarrow> 60 \<le> length (UDPBuffer s) \<Longrightarrow>
   \<forall>e\<in>set es. SDRActive e \<and> sendmsg e \<noteq> - 1 \<Longrightarrow>
   pc (run cfg es s) = Running \<and> \<not> InitError (run cfg es s)
     \<and> SequenceCounter (run cfg es s) = SequenceCounter s + of_nat (length es)
     \<and> map (\<lambda>f. load_be32 f 0) (sent_frames (trace (run cfg es s))) =
         map (\<lambda>f. load_be32 f 0) (sent_frames (trace s))
           @ map (\<lambda>i. SequenceCounter s + of_nat i) [0..<length es]"
proof (induction es arbitrary: s)
  case Nil
  then show ?case by simp
next
  case (Cons e es)
  let ?s1 = "OutgoingHighPriority_step cfg e s"
  have st: "?s1 = cycle e (env_writes e s)"
    using Cons.prems by (simp add: step_Running_cycle)
  have a: "pc ?s1 = Running" "\<not> InitError ?s1" "60 \<le> length (UDPBuffer ?s1)"
    using Cons.prems by (simp_all add: st)
  have b: "\<forall>e\<in>set es. SDRActive e \<and> sendmsg e \<noteq> - 1" using Cons.prems by simp
  note IH = Cons.IH [OF a b]
  have sq: "SequenceCounter ?s1 = SequenceCounter s + 1" by (simp add: st)
  have fr: "map (\<lambda>f. load_be32 f 0) (sent_frames (trace ?s1)) =
      map (\<lambda>f. load_be32 f 0) (sent_frames (trace s)) @ [SequenceCounter s]"
    using Cons.prems(3) by (simp add: st sent_frames_cycle build_frame_seq)
  have up: "map (\<lambda>i. SequenceCounter s + of_nat i) [0..<length (e # es)] =
      SequenceCounter s # map (\<lambda>i. SequenceCounter s + 1 + of_nat i) [0..<length es]"
    by (simp add: upt_conv_Cons map_Suc_upt [symmetric] add.assoc del: upt_Suc)
  show ?case using IH unfolding run.simps sq fr up by (simp add: add.assoc)
qed

subsection \<open>Sequence numbers\<close>

text \<open>
  C1. The thread reads \<open>SDRActive\<close> at its loop tests only. It is in the idle loop (it
  has last seen \<open>SDRActive\<close> false, or has just been created) and now sees \<open>SDRActive\<close>
  true: the sequence counter becomes 0 whatever it was before. If the \<open>N\<close> cycles that follow are all successful, the frames they send carry
  in their first four bytes, read in network byte order, the numbers \<open>0, 1, ..., N - 1\<close>
  as 32-bit words, that is, modulo \<open>2^32\<close>: each frame's number is the previous one plus 1,
  with no gap and no repeat.
\<close>

theorem sequence_numbers_consecutive_and_reset:
  assumes "60 \<le> VHIGHPRIOTIYFROMSDRSIZE cfg"
    and "pc s = Idle"
    and "\<not> InitError s"
    and "SDRActive e0"
    and "\<forall>e\<in>set es. SDRActive e \<and> sendmsg e \<noteq> - 1"
  shows "SequenceCounter (OutgoingHighPriority_step cfg e0 s) = 0
     \<and> pc (OutgoingHighPriority_step cfg e0 s) = Running
     \<and> SequenceCounter (run cfg (e0 # es) s) = of_nat (length es)
     \<and> map (\<lambda>f. load_be32 f 0) (sent_frames (trace (run cfg (e0 # es) s))) =
         map (\<lambda>f. load_be32 f 0) (sent_frames (trace s)) @ map of_nat [0..<length es]"
proof -
  let ?s1 = "OutgoingHighPriority_step cfg e0 s"
  have st: "?s1 = start_run cfg (env_writes e0 s)"
    using assms(2,4) by (rule step_Idle_start)
  have a: "pc ?s1 = Running" "\<not> InitError ?s1" "60 \<le> length (UDPBuffer ?s1)"
    "SequenceCounter ?s1 = 0" "trace ?s1 = trace s"
    using assms(1,3) by (simp_all add: st start_run_def)
  from run_successful_cycles [OF a(1,2,3) assms(5), of cfg]
  show ?thesis by (simp add: a)
qed

theorem sequence_numbers_consecutive_and_reset_witness:
  "SequenceCounter (OutgoingHighPriority_step cfg0 env0 s0) = 0
     \<and> map (\<lambda>f. load_be32 f 0) (sent_frames (trace (run cfg0 [env0, env0, env0, env0] s0))) =
         [0, 1, 2]"
proof -
  have h: "60 \<le> VHIGHPRIOTIYFROMSDRSIZE cfg0" "pc s0 = Idle" "\<not> InitError s0" "SDRActive env0"
    "\<forall>e\<in>set [env0, env0, env0]. SDRActive e \<and> sendmsg e \<noteq> - 1"
    by (simp_all add: cfg0_def s0_def env0_def OutgoingHighPriority_init_def)
  have t: "trace s0 = []" by (simp add: s0_def OutgoingHighPriority_init_def)
  have u: "[0..<3] = [0, 1, 2]" by (simp add: upt_rec)
  show ?thesis
    using sequence_numbers_consecutive_and_reset [OF h] by (simp add: t u)
qed

subsection \<open>The wait budget\<close>

text \<open>
  C2. While \<open>MOXAsserted\<close> holds the budget is 2 ticks. Otherwise the code assigns 400 to the
  \<open>uint8_t\<close> variable \<open>SleepCount\<close>, which then holds 144: with no key change the wait
  makes 144 calls of \<open>usleep(500)\<close>, not 400.
\<close>

theorem idle_wait_budget_truncated:
  "SleepCount_init True = 2 \<and> SleepCount_init False = 144
     \<and> inter_frame_wait env_rx (ucast (GetP2PTTKeyInputs env_rx)) = 144"
proof -
  have "wait_loop (\<lambda>_. 0) 0 0 (144 :: 8 word) = 0 + unat (144 :: 8 word)"
    by (rule wait_loop_all_equal) simp
  then have "inter_frame_wait env_rx (ucast (GetP2PTTKeyInputs env_rx)) = 144"
    by (simp add: inter_frame_wait_def env_rx_def env0_def SleepCount_init_False)
  then show ?thesis
    by (simp add: SleepCount_init_True SleepCount_init_False)
qed

text \<open>
  C3. Every tick of the wait reads the key/PTT bits again and compares them with the
  byte stored at offset 4 of the frame just built. If the reads of ticks \<open>0, ..., k - 1\<close>
  are equal to it and the read of tick \<open>k\<close>, within the budget, differs, the wait ends at
  that read after exactly \<open>k\<close> sleeps; when the send was successful and the stream is
  still running, the next thing the thread does is to build and send the next frame,
  which carries the key/PTT bits read for it.
\<close>

theorem wait_aborts_on_key_change:
  assumes "k < unat (SleepCount_init (MOXAsserted e))"
    and "\<forall>j<k. (ucast (WaitPTTKeyInputs e j) :: 8 word) = ucast (GetP2PTTKeyInputs e)"
    and "(ucast (WaitPTTKeyInputs e k) :: 8 word) \<noteq> ucast (GetP2PTTKeyInputs e)"
    and "pc s = Running" and "\<not> InitError s" and "60 \<le> length (UDPBuffer s)"
    and "SDRActive e" and "sendmsg e \<noteq> - 1" and "SDRActive e'"
  shows "inter_frame_wait e (ucast (GetP2PTTKeyInputs e)) = k
     \<and> (let f = build_frame e (SequenceCounter s)
                  (GlobalFIFOOverflows s OR StickyWrites e) (UDPBuffer s);
             f' = build_frame e' (SequenceCounter s + 1) (StickyWrites e') f
         in f ! 4 = ucast (GetP2PTTKeyInputs e) \<and> f' ! 4 = ucast (GetP2PTTKeyInputs e')
          \<and> trace (run cfg [e, e'] s) =
              trace s
              @ [EvSendmsg (Socketid s) f,
                 EvRequestATUTune (\<not> bit (ucast (GetUserIOBits e) :: 8 word) 2)]
              @ replicate k (EvUsleep 500)
              @ [EvSendmsg (Socketid s) f',
                 EvRequestATUTune (\<not> bit (ucast (GetUserIOBits e') :: 8 word) 2)]
              @ replicate (inter_frame_wait e' (ucast (GetP2PTTKeyInputs e'))) (EvUsleep 500))"
proof -
  have w: "inter_frame_wait e (ucast (GetP2PTTKeyInputs e)) = k"
    unfolding inter_frame_wait_def
    using wait_loop_first_diff [of k "SleepCount_init (MOXAsserted e)" "WaitPTTKeyInputs e" 0
        "ucast (GetP2PTTKeyInputs e)"] assms(1,2,3)
    by simp
  let ?s1 = "OutgoingHighPriority_step cfg e s"
  have st1: "?s1 = cycle e (env_writes e s)"
    using assms(4,7,5) by (rule step_Running_cycle)
  have a: "pc ?s1 = Running" "\<not> InitError ?s1"
    using assms by (simp_all add: st1)
  have st2: "OutgoingHighPriority_step cfg e' ?s1 = cycle e' (env_writes e' ?s1)"
    using a(1) assms(9) a(2) by (rule step_Running_cycle)
  have r: "run cfg [e, e'] s = cycle e' (env_writes e' (cycle e (env_writes e s)))"
    using st1 st2 by simp
  show ?thesis
    using assms(6) unfolding r by (simp add: w Let_def cycle_trace build_frame_ptt)
qed

theorem wait_aborts_on_key_change_witness:
  "inter_frame_wait (env_rx\<lparr>WaitPTTKeyInputs := (\<lambda>j. if j < 5 then 0 else 1)\<rparr>) 0 = 5"
proof -
  let ?e = "env_rx\<lparr>WaitPTTKeyInputs := (\<lambda>j. if j < 5 then 0 else 1)\<rparr>"
  let ?s = "OutgoingHighPriority_step cfg0 env0 s0"
  have h: "5 < unat (SleepCount_init (MOXAsserted ?e))"
    "\<forall>j<5. (ucast (WaitPTTKeyInputs ?e j) :: 8 word) = ucast (GetP2PTTKeyInputs ?e)"
    "(ucast (WaitPTTKeyInputs ?e 5) :: 8 word) \<noteq> ucast (GetP2PTTKeyInputs ?e)"
    "pc ?s = Running" "\<not> InitError ?s" "60 \<le> length (UDPBuffer ?s)"
    "SDRActive ?e" "sendmsg ?e \<noteq> - 1" "SDRActive env0"
    by (simp_all add: env_rx_def env0_def SleepCount_init_False s0_def cfg0_def
        OutgoingHighPriority_init_def OutgoingHighPriority_step_def env_writes_def
        start_run_def Let_def)
  show ?thesis
    using wait_aborts_on_key_change [OF h, of cfg0]
    by (simp add: env_rx_def env0_def)
qed

subsection \<open>Sample counts\<close>

lemma mic_samples_of_nat: "mic_samples d = of_nat (unat d * 4)"
proof -
  have "uint d * 4 = int (unat d * 4)" by simp
  then show ?thesis unfolding mic_samples_def by (metis of_int_of_nat_eq)
qed

lemma duc_samples_of_nat: "duc_samples d = of_nat (unat d * 4 div 3)"
proof -
  have "uint d * 4 div 3 = int (unat d * 4 div 3)" by (simp add: zdiv_int)
  then show ?thesis unfolding duc_samples_def by (metis of_int_of_nat_eq)
qed

lemma spk_samples_of_nat: "spk_samples d = of_nat (unat d * 2)"
proof -
  have "uint d * 2 = int (unat d * 2)" by simp
  then show ?thesis unfolding spk_samples_def by (metis of_int_of_nat_eq)
qed

lemma unat_mic_samples: "unat (mic_samples d) = (unat d * 4) mod 65536"
  unfolding mic_samples_of_nat by (simp add: unat_of_nat unat_word_ariths)

lemma unat_duc_samples: "unat (duc_samples d) = (unat d * 4 div 3) mod 65536"
  unfolding duc_samples_of_nat by (simp add: unat_of_nat)

lemma unat_spk_samples: "unat (spk_samples d) = (unat d * 2) mod 65536"
  unfolding spk_samples_of_nat by (simp add: unat_of_nat unat_word_ariths)

text \<open>
  C4, as stated, fails: a microphone FIFO count of 16384 is reported as 0, not as
  \<open>16384 * 4\<close>, because the count field has 16 bits.
\<close>

theorem mic_count_wraps_at_16384:
  "unat (load_be16 (build_frame env_deep 0 0 (replicate 60 0)) 33) \<noteq>
     unat (Current (ReadFIFOMonitorChannel env_deep eMicCodecDMA)) * 4"
  by (simp add: build_frame_mic unat_mic_samples env_deep_def env0_def quiet_fifo_def)

text \<open>
  C4, amended. The 2-byte counts stored at offsets 33, 35 and 37 are the microphone
  count times 4, the transmit count times 4 divided by 3 (truncating, the product taken
  without wrap-around) and the speaker count times 2, each reduced modulo \<open>2^16\<close>. They
  are the plain values whenever these fit 16 bits: for a microphone count below 16384, a
  transmit count below 49152 and a speaker count below 32768. A speaker count of 10
  is reported as 20 and a transmit count of 9 as 12.
\<close>

theorem sample_counts_modulo_field_width:
  assumes "60 \<le> length buf"
  shows "(let f = build_frame e q G buf;
              mic = unat (Current (ReadFIFOMonitorChannel e eMicCodecDMA));
              duc = unat (Current (ReadFIFOMonitorChannel e eTXDUCDMA));
              spk = unat (Current (ReadFIFOMonitorChannel e eSpkCodecDMA))
          in unat (load_be16 f 33) = (mic * 4) mod 65536
           \<and> unat (load_be16 f 35) = (duc * 4 div 3) mod 65536
           \<and> unat (load_be16 f 37) = (spk * 2) mod 65536
           \<and> (mic < 16384 \<longrightarrow> unat (load_be16 f 33) = mic * 4)
           \<and> (duc < 49152 \<longrightarrow> unat (load_be16 f 35) = duc * 4 div 3)
           \<and> (spk < 32768 \<longrightarrow> unat (load_be16 f 37) = spk * 2))
         \<and> spk_samples 10 = 20 \<and> duc_samples 9 = 12"
proof -
  have ex: "spk_samples 10 = 20" "duc_samples 9 = 12"
    by (simp_all add: spk_samples_def duc_samples_def)
  show ?thesis
    using assms
    by (simp add: Let_def build_frame_mic build_frame_duc build_frame_spk
        unat_mic_samples unat_duc_samples unat_spk_samples ex)
qed

theorem sample_counts_modulo_field_width_witness:
  "unat (load_be16 (build_frame env_counts 0 0 (replicate 60 0)) 33) = 20
     \<and> unat (load_be16 (build_frame env_counts 0 0 (replicate 60 0)) 35) = 12
     \<and> unat (load_be16 (build_frame env_counts 0 0 (replicate 60 0)) 37) = 20"
proof -
  have h: "60 \<le> length (replicate 60 (0 :: 8 word))" by simp
  show ?thesis
    using sample_counts_modulo_field_width [OF h, of env_counts 0 0]
    by (simp add: Let_def env_counts_def env0_def quiet_fifo_def)
qed

subsection \<open>The FIFO error byte\<close>

lemma fifo_flags_eq:
  "fifo_flags e =
     (if FIFOOverThreshold (ReadFIFOMonitorChannel e eRXDDCDMA) then 1 else 0)
       OR (if FIFOOverThreshold (ReadFIFOMonitorChannel e eMicCodecDMA) then 2 else 0)
       OR (if FIFOUnderflow (ReadFIFOMonitorChannel e eTXDUCDMA) then 4 else 0)
       OR (if FIFOUnderflow (ReadFIFOMonitorChannel e eSpkCodecDMA) then 8 else 0)"
  by (simp add: fifo_flags_def Let_def)

text \<open>
  C5. The flags of one cycle are bit 0 for the receive channel and bit 1 for the
  microphone channel when their over-threshold flag is set, bit 2 for the transmit
  channel and bit 3 for the speaker channel when their underflow flag is set. Byte 30
  of the frame is these bits OR-ed with \<open>GlobalFIFOOverflows\<close>, which is 0 after the
  cycle. In two cycles in a row, the byte of the second frame holds the flags read in
  the second cycle and the bits written to \<open>GlobalFIFOOverflows\<close> between the two
  cycles, nothing else: a bit of the first byte that is neither raised again nor written
  again is not in the second.
\<close>

theorem fifo_error_byte_policy:
  assumes "pc s = Running" and "\<not> InitError s" and "60 \<le> length (UDPBuffer s)"
    and "SDRActive e" and "sendmsg e \<noteq> - 1" and "SDRActive e'"
  shows "fifo_flags e =
       (if FIFOOverThreshold (ReadFIFOMonitorChannel e eRXDDCDMA) then 1 else 0)
         OR (if FIFOOverThreshold (ReadFIFOMonitorChannel e eMicCodecDMA) then 2 else 0)
         OR (if FIFOUnderflow (ReadFIFOMonitorChannel e eTXDUCDMA) then 4 else 0)
         OR (if FIFOUnderflow (ReadFIFOMonitorChannel e eSpkCodecDMA) then 8 else 0)
     \<and> (let f = build_frame e (SequenceCounter s)
                  (GlobalFIFOOverflows s OR StickyWrites e) (UDPBuffer s);
             f' = build_frame e' (SequenceCounter s + 1) (StickyWrites e') f
         in sent_frames (trace (run cfg [e, e'] s)) = sent_frames (trace s) @ [f, f']
          \<and> f ! 30 = fifo_flags e OR GlobalFIFOOverflows s OR StickyWrites e
          \<and> GlobalFIFOOverflows (OutgoingHighPriority_step cfg e s) = 0
          \<and> f' ! 30 = fifo_flags e' OR StickyWrites e'
          \<and> (\<forall>n. bit (f ! 30) n \<and> \<not> bit (fifo_flags e') n \<and> \<not> bit (StickyWrites e') n
                 \<longrightarrow> \<not> bit (f' ! 30) n))"
proof -
  let ?s1 = "OutgoingHighPriority_step cfg e s"
  have st1: "?s1 = cycle e (env_writes e s)"
    using assms(1,4,2) by (rule step_Running_cycle)
  have a: "pc ?s1 = Running" "\<not> InitError ?s1"
    using assms by (simp_all add: st1)
  have st2: "OutgoingHighPriority_step cfg e' ?s1 = cycle e' (env_writes e' ?s1)"
    using a(1) assms(6) a(2) by (rule step_Running_cycle)
  have r: "run cfg [e, e'] s = cycle e' (env_writes e' (cycle e (env_writes e s)))"
    using st1 st2 by simp
  have g: "GlobalFIFOOverflows ?s1 = 0" by (simp add: st1)
  show ?thesis
    using assms(3) unfolding r g
    by (simp add: Let_def sent_frames_cycle build_frame_mask fifo_flags_eq [symmetric]
        bit_or_iff or.assoc)
qed

theorem fifo_error_byte_policy_witness:
  "sent_frames (trace (run cfg0 [env0, env0]
       ((OutgoingHighPriority_step cfg0 env0 s0)\<lparr>GlobalFIFOOverflows := 16\<rparr>))) ! 0 ! 30 = 16
   \<and> sent_frames (trace (run cfg0 [env0, env0]
       ((OutgoingHighPriority_step cfg0 env0 s0)\<lparr>GlobalFIFOOverflows := 16\<rparr>))) ! 1 ! 30 = 0"
proof -
  let ?s = "(OutgoingHighPriority_step cfg0 env0 s0)\<lparr>GlobalFIFOOverflows := 16\<rparr>"
  have h: "pc ?s = Running" "\<not> InitError ?s" "60 \<le> length (UDPBuffer ?s)"
    "SDRActive env0" "sendmsg env0 \<noteq> - 1" "SDRActive env0"
    by (simp_all add: env0_def s0_def cfg0_def OutgoingHighPriority_init_def
        OutgoingHighPriority_step_def env_writes_def start_run_def Let_def)
  have t: "trace ?s = []"
    by (simp add: env0_def s0_def cfg0_def OutgoingHighPriority_init_def
        OutgoingHighPriority_step_def env_writes_def start_run_def Let_def)
  have fl: "fifo_flags env0 = 0" "StickyWrites env0 = 0"
    by (simp_all add: fifo_flags_def env0_def quiet_fifo_def)
  have g: "GlobalFIFOOverflows ?s = 16" by simp
  show ?thesis
    using fifo_error_byte_policy [OF h, of cfg0]
    by (simp add: Let_def t fl g)
qed

subsection \<open>The tuner relay\<close>

text \<open>
  C9. A cycle calls \<open>RequestATUTune\<close> once, after the send, with the inversion of bit 2
  of byte 59 of the frame it has just built (the user I/O byte). The value of the last
  call is all that is kept, and it has no influence on the next cycle: the step yields
  the same state whatever \<open>ATUTuneRequest\<close> held before.
\<close>

theorem atu_tune_request_is_inverted_bit_2:
  assumes "pc s = Running" and "\<not> InitError s" and "SDRActive e"
    and "60 \<le> length (UDPBuffer s)"
  shows "(let f = build_frame e (SequenceCounter s)
                  (GlobalFIFOOverflows s OR StickyWrites e) (UDPBuffer s)
          in trace (OutgoingHighPriority_step cfg e s) =
               trace s @ [EvSendmsg (Socketid s) f, EvRequestATUTune (\<not> bit (f ! 59) 2)]
                 @ replicate (inter_frame_wait e (f ! 4)) (EvUsleep 500)
           \<and> ATUTuneRequest (OutgoingHighPriority_step cfg e s) = (\<not> bit (f ! 59) 2))
     \<and> OutgoingHighPriority_step cfg e (s\<lparr>ATUTuneRequest := b\<rparr>) =
         OutgoingHighPriority_step cfg e s"
proof -
  have st: "OutgoingHighPriority_step cfg e s = cycle e (env_writes e s)"
    using assms(1,3,2) by (rule step_Running_cycle)
  have st': "OutgoingHighPriority_step cfg e (s\<lparr>ATUTuneRequest := b\<rparr>) =
      cycle e (env_writes e (s\<lparr>ATUTuneRequest := b\<rparr>))"
    using assms(1,3,2) by (simp add: step_Running_cycle)
  have ind: "cycle e (env_writes e (s\<lparr>ATUTuneRequest := b\<rparr>)) = cycle e (env_writes e s)"
    by (simp add: cycle_def env_writes_def Let_def)
  show ?thesis
    using assms(4) unfolding st st' ind
    by (simp add: Let_def cycle_trace build_frame_userio build_frame_ptt)
qed

theorem atu_tune_request_is_inverted_bit_2_witness:
  "ATUTuneRequest (OutgoingHighPriority_step cfg0 (env0\<lparr>GetUserIOBits := 4\<rparr>)
       (OutgoingHighPriority_step cfg0 env0 s0)) = False
   \<and> ATUTuneRequest (OutgoingHighPriority_step cfg0 env0
       (OutgoingHighPriority_step cfg0 env0 s0)) = True"
proof -
  let ?s = "OutgoingHighPriority_step cfg0 env0 s0"
  have h: "pc ?s = Running" "\<not> InitError ?s" "60 \<le> length (UDPBuffer ?s)"
    by (simp_all add: env0_def s0_def cfg0_def OutgoingHighPriority_init_def
        OutgoingHighPriority_step_def env_writes_def start_run_def Let_def)
  have e: "SDRActive env0" "SDRActive (env0\<lparr>GetUserIOBits := 4\<rparr>)"
    by (simp_all add: env0_def)
  have u: "GetUserIOBits env0 = 0" by (simp add: env0_def)
  show ?thesis
    using atu_tune_request_is_inverted_bit_2 [OF h(1,2) e(1) h(3), of cfg0]
      atu_tune_request_is_inverted_bit_2 [OF h(1,2) e(2) h(3), of cfg0]
      h(3)
    by (simp add: Let_def build_frame_userio u)
qed

subsection \<open>A failed send\<close>

lemma cycle_sendmsg_irrelevant:
  "cycle e s = (cycle (e\<lparr>sendmsg := r\<rparr>) s)\<lparr>InitError := (sendmsg e = - 1 \<or> InitError s)\<rparr>"
  by (simp add: cycle_def Let_def inter_frame_wait_def build_frame_def encode_status_def
      encode_fifo_def fifo_flags_def)

text \<open>
  C10. In a cycle whose send fails nothing is undone and nothing is skipped: the
  sequence counter is one more than before, \<open>GlobalFIFOOverflows\<close> is 0 although its bits
  went into byte 30 of the frame that was not sent, \<open>RequestATUTune\<close> is called after the
  send, and the wait runs as it does after a successful send: with the key/PTT bits
  unchanged it sleeps out its whole budget (2 ticks while \<open>MOXAsserted\<close>, else the 144
  ticks that \<open>SleepCount\<close> holds), and with a first change at tick \<open>k\<close> within the budget
  it makes \<open>k\<close> sleeps. The state after the cycle is the state a successful send would
  have left, but for \<open>InitError\<close>. The thread is still in the main loop; the shutdown
  (fault flag, close) is what it does next.
\<close>

theorem failed_send_cycle_still_completes:
  assumes "pc s = Running" and "\<not> InitError s" and "SDRActive e" and "sendmsg e = - 1"
    and "60 \<le> length (UDPBuffer s)"
  shows "(let s1 = OutgoingHighPriority_step cfg e s;
              f = build_frame e (SequenceCounter s)
                    (GlobalFIFOOverflows s OR StickyWrites e) (UDPBuffer s)
          in SequenceCounter s1 = SequenceCounter s + 1
           \<and> GlobalFIFOOverflows s1 = 0
           \<and> f ! 30 = fifo_flags e OR GlobalFIFOOverflows s OR StickyWrites e
           \<and> trace s1 =
               trace s @ [EvSendmsg (Socketid s) f,
                          EvRequestATUTune (\<not> bit (ucast (GetUserIOBits e) :: 8 word) 2)]
                 @ replicate (inter_frame_wait e (ucast (GetP2PTTKeyInputs e))) (EvUsleep 500)
           \<and> pc s1 = Running \<and> InitError s1
           \<and> s1 = (OutgoingHighPriority_step cfg (e\<lparr>sendmsg := 60\<rparr>) s)\<lparr>InitError := True\<rparr>
           \<and> trace (OutgoingHighPriority_step cfg e' s1) =
               trace s1 @ [EvThreadError, EvClose (Socketid s)]
           \<and> ((\<forall>j<unat (SleepCount_init (MOXAsserted e)).
                  (ucast (WaitPTTKeyInputs e j) :: 8 word) = ucast (GetP2PTTKeyInputs e))
                \<longrightarrow> trace s1 =
                     trace s @ [EvSendmsg (Socketid s) f,
                       EvRequestATUTune (\<not> bit (ucast (GetUserIOBits e) :: 8 word) 2)]
                     @ replicate (if MOXAsserted e then 2 else 144) (EvUsleep 500))
           \<and> (k < unat (SleepCount_init (MOXAsserted e))
                \<and> (\<forall>j<k. (ucast (WaitPTTKeyInputs e j) :: 8 word) = ucast (GetP2PTTKeyInputs e))
                \<and> (ucast (WaitPTTKeyInputs e k) :: 8 word) \<noteq> ucast (GetP2PTTKeyInputs e)
                \<longrightarrow> trace s1 =
                     trace s @ [EvSendmsg (Socketid s) f,
                       EvRequestATUTune (\<not> bit (ucast (GetUserIOBits e) :: 8 word) 2)]
                     @ replicate k (EvUsleep 500)))"
proof -
  let ?s1 = "OutgoingHighPriority_step cfg e s"
  let ?w = "inter_frame_wait e (ucast (GetP2PTTKeyInputs e))"
  have st: "?s1 = cycle e (env_writes e s)"
    using assms(1,3,2) by (rule step_Running_cycle)
  have st60: "OutgoingHighPriority_step cfg (e\<lparr>sendmsg := 60\<rparr>) s =
      cycle (e\<lparr>sendmsg := 60\<rparr>) (env_writes e s)"
    using assms(1,3,2) by (simp add: step_Running_cycle env_writes_def)
  have a: "pc ?s1 = Running" "InitError ?s1" "Socketid ?s1 = Socketid s"
    using assms by (simp_all add: st)
  have nx: "OutgoingHighPriority_step cfg e' ?s1 = shutdown (env_writes e' ?s1)"
    using a(1,2) by (rule step_Running_error)
  have tr: "trace (shutdown (env_writes e' ?s1)) = trace ?s1 @ [EvThreadError, EvClose (Socketid s)]"
    using a by (simp add: shutdown_def)
  have eq: "?s1 = (OutgoingHighPriority_step cfg (e\<lparr>sendmsg := 60\<rparr>) s)\<lparr>InitError := True\<rparr>"
    unfolding st st60 using assms(4) by (subst cycle_sendmsg_irrelevant [of e _ 60]) simp
  have rest: "SequenceCounter ?s1 = SequenceCounter s + 1" "GlobalFIFOOverflows ?s1 = 0"
    "trace ?s1 =
       trace s @ [EvSendmsg (Socketid s) (build_frame e (SequenceCounter s)
                    (GlobalFIFOOverflows s OR StickyWrites e) (UDPBuffer s)),
                  EvRequestATUTune (\<not> bit (ucast (GetUserIOBits e) :: 8 word) 2)]
         @ replicate ?w (EvUsleep 500)"
    by (simp_all add: st cycle_trace)
  have m: "build_frame e (SequenceCounter s) (GlobalFIFOOverflows s OR StickyWrites e)
      (UDPBuffer s) ! 30 = fifo_flags e OR GlobalFIFOOverflows s OR StickyWrites e"
    using assms(5) by (simp add: build_frame_mask or.assoc)
  have budget: "unat (SleepCount_init (MOXAsserted e)) = (if MOXAsserted e then 2 else 144)"
    by (simp add: SleepCount_init_True SleepCount_init_False)
  have full: "?w = (if MOXAsserted e then 2 else 144)"
    if "\<forall>j<unat (SleepCount_init (MOXAsserted e)).
          (ucast (WaitPTTKeyInputs e j) :: 8 word) = ucast (GetP2PTTKeyInputs e)"
  proof -
    have "?w = 0 + unat (SleepCount_init (MOXAsserted e))"
      unfolding inter_frame_wait_def by (rule wait_loop_all_equal) (use that in simp)
    then show ?thesis by (simp only: budget add_0)
  qed
  have early: "?w = k"
    if "k < unat (SleepCount_init (MOXAsserted e))
        \<and> (\<forall>j<k. (ucast (WaitPTTKeyInputs e j) :: 8 word) = ucast (GetP2PTTKeyInputs e))
        \<and> (ucast (WaitPTTKeyInputs e k) :: 8 word) \<noteq> ucast (GetP2PTTKeyInputs e)"
  proof -
    have "?w = 0 + k"
      unfolding inter_frame_wait_def by (rule wait_loop_first_diff) (use that in simp_all)
    then show ?thesis by simp
  qed
  show ?thesis
    unfolding Let_def nx tr
  proof (intro conjI impI)
    show "trace ?s1 = trace s @ [EvSendmsg (Socketid s) (build_frame e (SequenceCounter s)
                    (GlobalFIFOOverflows s OR StickyWrites e) (UDPBuffer s)),
                  EvRequestATUTune (\<not> bit (ucast (GetUserIOBits e) :: 8 word) 2)]
         @ replicate (if MOXAsserted e then 2 else 144) (EvUsleep 500)"
      if "\<forall>j<unat (SleepCount_init (MOXAsserted e)).
          (ucast (WaitPTTKeyInputs e j) :: 8 word) = ucast (GetP2PTTKeyInputs e)"
      using rest(3) full [OF that] by (simp only:)
    show "trace ?s1 = trace s @ [EvSendmsg (Socketid s) (build_frame e (SequenceCounter s)
                    (GlobalFIFOOverflows s OR StickyWrites e) (UDPBuffer s)),
                  EvRequestATUTune (\<not> bit (ucast (GetUserIOBits e) :: 8 word) 2)]
         @ replicate k (EvUsleep 500)"
      if "k < unat (SleepCount_init (MOXAsserted e))
        \<and> (\<forall>j<k. (ucast (WaitPTTKeyInputs e j) :: 8 word) = ucast (GetP2PTTKeyInputs e))
        \<and> (ucast (WaitPTTKeyInputs e k) :: 8 word) \<noteq> ucast (GetP2PTTKeyInputs e)"
      using rest(3) early [OF that] by (simp only:)
  qed (use a(1,2) eq rest m in blast)+
qed

theorem failed_send_cycle_still_completes_witness:
  "SequenceCounter (OutgoingHighPriority_step cfg0 env_fail
       (OutgoingHighPriority_step cfg0 env0 s0)) = 1
   \<and> pc (OutgoingHighPriority_step cfg0 env_fail
       (OutgoingHighPriority_step cfg0 env0 s0)) = Running
   \<and> drop 2 (trace (OutgoingHighPriority_step cfg0 env_fail
       (OutgoingHighPriority_step cfg0 env0 s0))) = [EvUsleep 500, EvUsleep 500]
   \<and> drop 2 (trace (OutgoingHighPriority_step cfg0 (env_rx\<lparr>sendmsg := - 1\<rparr>)
       (OutgoingHighPriority_step cfg0 env0 s0))) = replicate 144 (EvUsleep 500)
   \<and> drop 2 (trace (OutgoingHighPriority_step cfg0
       (env_fail\<lparr>WaitPTTKeyInputs := (\<lambda>j. if j < 1 then 1 else 0)\<rparr>)
       (OutgoingHighPriority_step cfg0 env0 s0))) = [EvUsleep 500]"
proof -
  let ?s = "OutgoingHighPriority_step cfg0 env0 s0"
  let ?er = "env_rx\<lparr>sendmsg := - 1\<rparr>"
  let ?ek = "env_fail\<lparr>WaitPTTKeyInputs := (\<lambda>j. if j < 1 then 1 else 0)\<rparr>"
  have h: "pc ?s = Running" "\<not> InitError ?s" "60 \<le> length (UDPBuffer ?s)"
    by (simp_all add: env0_def s0_def cfg0_def OutgoingHighPriority_init_def
        OutgoingHighPriority_step_def env_writes_def start_run_def Let_def)
  have q: "SequenceCounter ?s = 0" "trace ?s = []"
    by (simp_all add: env0_def s0_def cfg0_def OutgoingHighPriority_init_def
        OutgoingHighPriority_step_def env_writes_def start_run_def Let_def)
  have f: "SDRActive env_fail" "sendmsg env_fail = - 1" "MOXAsserted env_fail"
    "\<forall>j<unat (SleepCount_init (MOXAsserted env_fail)).
       (ucast (WaitPTTKeyInputs env_fail j) :: 8 word) = ucast (GetP2PTTKeyInputs env_fail)"
    by (simp_all add: env_fail_def env0_def)
  have r: "SDRActive ?er" "sendmsg ?er = - 1" "\<not> MOXAsserted ?er"
    "\<forall>j<unat (SleepCount_init (MOXAsserted ?er)).
       (ucast (WaitPTTKeyInputs ?er j) :: 8 word) = ucast (GetP2PTTKeyInputs ?er)"
    by (simp_all add: env_rx_def env0_def)
  have k: "SDRActive ?ek" "sendmsg ?ek = - 1"
    "1 < unat (SleepCount_init (MOXAsserted ?ek))
       \<and> (\<forall>j<1. (ucast (WaitPTTKeyInputs ?ek j) :: 8 word) = ucast (GetP2PTTKeyInputs ?ek))
       \<and> (ucast (WaitPTTKeyInputs ?ek 1) :: 8 word) \<noteq> ucast (GetP2PTTKeyInputs ?ek)"
    by (simp_all add: env_fail_def env0_def SleepCount_init_True)
  note Tf = failed_send_cycle_still_completes [OF h(1,2) f(1,2) h(3), of cfg0 env0 0,
      unfolded Let_def]
  note Tr = failed_send_cycle_still_completes [OF h(1,2) r(1,2) h(3), of cfg0 env0 0,
      unfolded Let_def]
  note Tk = failed_send_cycle_still_completes [OF h(1,2) k(1,2) h(3), of cfg0 env0 1,
      unfolded Let_def]
  have A: "SequenceCounter (OutgoingHighPriority_step cfg0 env_fail ?s) = SequenceCounter ?s + 1"
    "pc (OutgoingHighPriority_step cfg0 env_fail ?s) = Running"
    using Tf by blast+
  have B: "drop 2 (trace (OutgoingHighPriority_step cfg0 env_fail ?s)) =
      [EvUsleep 500, EvUsleep 500]"
  proof -
    from Tf f(4) have "trace (OutgoingHighPriority_step cfg0 env_fail ?s) =
        trace ?s @ [EvSendmsg (Socketid ?s) (build_frame env_fail (SequenceCounter ?s)
            (GlobalFIFOOverflows ?s OR StickyWrites env_fail) (UDPBuffer ?s)),
          EvRequestATUTune (\<not> bit (ucast (GetUserIOBits env_fail) :: 8 word) 2)]
        @ replicate (if MOXAsserted env_fail then 2 else 144) (EvUsleep 500)"
      by blast
    then show ?thesis using f(3) by (simp add: q(2) numeral_2_eq_2)
  qed
  have C: "drop 2 (trace (OutgoingHighPriority_step cfg0 ?er ?s)) =
      replicate 144 (EvUsleep 500)"
  proof -
    from Tr r(4) have "trace (OutgoingHighPriority_step cfg0 ?er ?s) =
        trace ?s @ [EvSendmsg (Socketid ?s) (build_frame ?er (SequenceCounter ?s)
            (GlobalFIFOOverflows ?s OR StickyWrites ?er) (UDPBuffer ?s)),
          EvRequestATUTune (\<not> bit (ucast (GetUserIOBits ?er) :: 8 word) 2)]
        @ replicate (if MOXAsserted ?er then 2 else 144) (EvUsleep 500)"
      by blast
    then show ?thesis using r(3) by (simp add: q(2))
  qed
  have D: "drop 2 (trace (OutgoingHighPriority_step cfg0 ?ek ?s)) = [EvUsleep 500]"
  proof -
    from Tk k(3) have "trace (OutgoingHighPriority_step cfg0 ?ek ?s) =
        trace ?s @ [EvSendmsg (Socketid ?s) (build_frame ?ek (SequenceCounter ?s)
            (GlobalFIFOOverflows ?s OR StickyWrites ?ek) (UDPBuffer ?s)),
          EvRequestATUTune (\<not> bit (ucast (GetUserIOBits ?ek) :: 8 word) 2)]
        @ replicate 1 (EvUsleep 500)"
      by blast
    then show ?thesis by (simp add: q(2))
  qed
  show ?thesis using A B C D by (simp add: q(1))
qed

subsection \<open>The change-port command\<close>

lemma count_list_replicate_other: "x \<noteq> y \<Longrightarrow> count_list (replicate n y) x = 0"
  by (induction n) simp_all

text \<open>
  C7. In the idle loop a pending \<open>VBITCHANGEPORT\<close> makes the thread close its socket, call
  \<open>MakeSocket\<close>, keep the socket it returns and clear the bit. In the main loop the step
  does not depend on \<open>Cmdid\<close> and leaves it as the writers left it, keeps the socket and
  does not call \<open>MakeSocket\<close>. A bit that is pending when the stream stops is acted on
  at the first poll of the idle loop.
\<close>

theorem change_port_only_while_idle:
  "(pc s = Idle \<and> \<not> SDRActive e \<and> (Cmdid s OR CmdidWrites e) AND VBITCHANGEPORT cfg \<noteq> 0
      \<longrightarrow> (let s' = OutgoingHighPriority_step cfg e s
           in trace s' = trace s @ [EvClose (Socketid s), EvMakeSocket, EvUsleep 100]
            \<and> Socketid s' = MakeSocketResult e
            \<and> Cmdid s' AND VBITCHANGEPORT cfg = 0
            \<and> pc s' = Idle))
   \<and> (pc r = Running
      \<longrightarrow> OutgoingHighPriority_step cfg er (r\<lparr>Cmdid := c\<rparr>) =
            (OutgoingHighPriority_step cfg er r)\<lparr>Cmdid := c OR CmdidWrites er\<rparr>
          \<and> Cmdid (OutgoingHighPriority_step cfg er r) = Cmdid r OR CmdidWrites er
          \<and> Socketid (OutgoingHighPriority_step cfg er r) = Socketid r
          \<and> count_list (trace (OutgoingHighPriority_step cfg er r)) EvMakeSocket =
              count_list (trace r) EvMakeSocket)
   \<and> (pc r = Running \<and> \<not> InitError r \<and> \<not> SDRActive ea \<and> \<not> SDRActive eb
        \<and> (Cmdid r OR CmdidWrites ea OR CmdidWrites eb) AND VBITCHANGEPORT cfg \<noteq> 0
      \<longrightarrow> trace (run cfg [ea, eb] r) =
            trace r @ [EvClose (Socketid r), EvMakeSocket, EvUsleep 100]
          \<and> Socketid (run cfg [ea, eb] r) = MakeSocketResult eb)"
proof (intro conjI impI)
  assume a: "pc s = Idle \<and> \<not> SDRActive e
      \<and> (Cmdid s OR CmdidWrites e) AND VBITCHANGEPORT cfg \<noteq> 0"
  then have st: "OutgoingHighPriority_step cfg e s = idle_poll cfg e (env_writes e s)"
    by (simp add: step_Idle_poll)
  show "let s' = OutgoingHighPriority_step cfg e s
        in trace s' = trace s @ [EvClose (Socketid s), EvMakeSocket, EvUsleep 100]
         \<and> Socketid s' = MakeSocketResult e
         \<and> Cmdid s' AND VBITCHANGEPORT cfg = 0
         \<and> pc s' = Idle"
    using a unfolding st Let_def
    by (simp add: idle_poll_def and.assoc)
next
  assume r: "pc r = Running"
  show "OutgoingHighPriority_step cfg er (r\<lparr>Cmdid := c\<rparr>) =
      (OutgoingHighPriority_step cfg er r)\<lparr>Cmdid := c OR CmdidWrites er\<rparr>"
    using r by (simp add: OutgoingHighPriority_step_def Let_def env_writes_def cycle_def
        shutdown_def)
  show "Cmdid (OutgoingHighPriority_step cfg er r) = Cmdid r OR CmdidWrites er"
    using r by (simp add: OutgoingHighPriority_step_def Let_def shutdown_def)
  show "Socketid (OutgoingHighPriority_step cfg er r) = Socketid r"
    using r by (simp add: OutgoingHighPriority_step_def Let_def shutdown_def)
  show "count_list (trace (OutgoingHighPriority_step cfg er r)) EvMakeSocket =
      count_list (trace r) EvMakeSocket"
    using r by (simp add: OutgoingHighPriority_step_def Let_def shutdown_def cycle_trace
        count_list_replicate_other)
next
  assume a: "pc r = Running \<and> \<not> InitError r \<and> \<not> SDRActive ea \<and> \<not> SDRActive eb
      \<and> (Cmdid r OR CmdidWrites ea OR CmdidWrites eb) AND VBITCHANGEPORT cfg \<noteq> 0"
  then have st1: "OutgoingHighPriority_step cfg ea r = (env_writes ea r)\<lparr>pc := Idle\<rparr>"
    by (simp add: step_Running_stop)
  have st2: "OutgoingHighPriority_step cfg eb ((env_writes ea r)\<lparr>pc := Idle\<rparr>) =
      idle_poll cfg eb (env_writes eb ((env_writes ea r)\<lparr>pc := Idle\<rparr>))"
    using a by (simp add: step_Idle_poll)
  have rn: "run cfg [ea, eb] r =
      idle_poll cfg eb (env_writes eb ((env_writes ea r)\<lparr>pc := Idle\<rparr>))"
    by (simp add: st1 st2)
  show "trace (run cfg [ea, eb] r) =
      trace r @ [EvClose (Socketid r), EvMakeSocket, EvUsleep 100]"
    using a unfolding rn by (simp add: idle_poll_def env_writes_def or.assoc)
  show "Socketid (run cfg [ea, eb] r) = MakeSocketResult eb"
    using a unfolding rn by (simp add: idle_poll_def env_writes_def or.assoc)
qed

theorem change_port_only_while_idle_witness:
  "Socketid (OutgoingHighPriority_step cfg0 (env_stop\<lparr>CmdidWrites := 1\<rparr>) s0) = 7
   \<and> Socketid (OutgoingHighPriority_step cfg0 (env0\<lparr>CmdidWrites := 1\<rparr>)
        (OutgoingHighPriority_step cfg0 env0 s0)) = 3
   \<and> Socketid (run cfg0 [env_stop\<lparr>CmdidWrites := 1\<rparr>, env_stop]
        (OutgoingHighPriority_step cfg0 env0 s0)) = 7"
proof -
  let ?r = "OutgoingHighPriority_step cfg0 env0 s0"
  let ?e = "env_stop\<lparr>CmdidWrites := 1\<rparr>"
  have h1: "pc s0 = Idle \<and> \<not> SDRActive ?e
      \<and> (Cmdid s0 OR CmdidWrites ?e) AND VBITCHANGEPORT cfg0 \<noteq> 0"
    by (simp add: env_stop_def env0_def s0_def cfg0_def OutgoingHighPriority_init_def)
  have h2: "pc ?r = Running" "Socketid ?r = 3"
    by (simp_all add: env0_def s0_def cfg0_def OutgoingHighPriority_init_def
        OutgoingHighPriority_step_def env_writes_def start_run_def Let_def)
  have h3: "pc ?r = Running \<and> \<not> InitError ?r \<and> \<not> SDRActive ?e \<and> \<not> SDRActive env_stop
      \<and> (Cmdid ?r OR CmdidWrites ?e OR CmdidWrites env_stop) AND VBITCHANGEPORT cfg0 \<noteq> 0"
    by (simp add: env_stop_def env0_def s0_def cfg0_def OutgoingHighPriority_init_def
        OutgoingHighPriority_step_def env_writes_def start_run_def Let_def)
  have m: "MakeSocketResult ?e = 7" "MakeSocketResult env_stop = 7"
    by (simp_all add: env_stop_def env0_def)
  note T = change_port_only_while_idle [where s = s0 and e = "?e" and cfg = cfg0
      and r = "?r" and er = "env0\<lparr>CmdidWrites := 1\<rparr>" and c = 0 and ea = "?e"
      and eb = env_stop]
  have A: "Socketid (OutgoingHighPriority_step cfg0 ?e s0) = MakeSocketResult ?e"
    using T h1 unfolding Let_def by blast
  have B: "Socketid (OutgoingHighPriority_step cfg0 (env0\<lparr>CmdidWrites := 1\<rparr>) ?r) =
      Socketid ?r"
    using T h2(1) by blast
  have C: "Socketid (run cfg0 [?e, env_stop] ?r) = MakeSocketResult env_stop"
    using T h3 by blast
  show ?thesis using A B C h2(2) m by simp
qed

subsection \<open>Shutdown after a failed send\<close>

lemma step_keeps_fault_count:
  "pc (OutgoingHighPriority_step cfg e s) \<noteq> Exited \<Longrightarrow>
   count_list (trace (OutgoingHighPriority_step cfg e s)) EvThreadError =
     count_list (trace s) EvThreadError"
  by (cases "pc s")
     (auto simp: OutgoingHighPriority_step_def Let_def idle_poll_def start_run_def
        shutdown_def cycle_trace count_list_replicate_other split: if_splits)

lemma run_keeps_fault_count:
  "pc (run cfg es s) \<noteq> Exited \<Longrightarrow>
   count_list (trace (run cfg es s)) EvThreadError = count_list (trace s) EvThreadError"
proof (induction es arbitrary: s)
  case Nil
  then show ?case by simp
next
  case (Cons e es)
  have ne: "pc (OutgoingHighPriority_step cfg e s) \<noteq> Exited"
  proof
    assume "pc (OutgoingHighPriority_step cfg e s) = Exited"
    then have "pc (run cfg es (OutgoingHighPriority_step cfg e s)) = Exited"
      using run_Exited by blast
    with Cons.prems show False by simp
  qed
  have "count_list (trace (run cfg es (OutgoingHighPriority_step cfg e s))) EvThreadError =
      count_list (trace (OutgoingHighPriority_step cfg e s)) EvThreadError"
    using Cons.prems by (intro Cons.IH) simp
  then show ?case using step_keeps_fault_count [OF ne] by simp
qed

text \<open>
  C6. The thread has been running for any length of time and a send fails. Whatever
  happens afterwards, the thread has returned; the fault flag \<open>ThreadError\<close> is set and
  the thread is marked inactive; after the failed \<open>sendmsg\<close> the thread calls
  \<open>RequestATUTune\<close>, sleeps out its wait, sets the fault flag and closes its socket, and
  does nothing more: no frame is built or sent again. In the whole life of the thread
  the fault flag is set exactly once.
\<close>

theorem send_failure_is_fatal:
  assumes "s = run cfg pre (OutgoingHighPriority_init cfg garbage sock cmd gfo terr)"
    and "pc s = Running" and "\<not> InitError s" and "SDRActive e" and "sendmsg e = - 1"
  shows "(let s' = run cfg (e # e' # es) s;
              f = build_frame e (SequenceCounter s)
                    (GlobalFIFOOverflows s OR StickyWrites e) (UDPBuffer s)
          in pc s' = Exited \<and> ThreadError s' \<and> \<not> Active s'
           \<and> trace s' =
               trace s @ [EvSendmsg (Socketid s) f,
                          EvRequestATUTune (\<not> bit (ucast (GetUserIOBits e) :: 8 word) 2)]
                 @ replicate (inter_frame_wait e (ucast (GetP2PTTKeyInputs e))) (EvUsleep 500)
                 @ [EvThreadError, EvClose (Socketid s)]
           \<and> sent_frames (trace s') = sent_frames (trace s) @ [f]
           \<and> count_list (trace s') EvThreadError = 1)"
proof -
  let ?s1 = "OutgoingHighPriority_step cfg e s"
  let ?s2 = "OutgoingHighPriority_step cfg e' ?s1"
  let ?f = "build_frame e (SequenceCounter s)
      (GlobalFIFOOverflows s OR StickyWrites e) (UDPBuffer s)"
  have st: "?s1 = cycle e (env_writes e s)"
    using assms(2,4,3) by (rule step_Running_cycle)
  have a: "pc ?s1 = Running" "InitError ?s1" "Socketid ?s1 = Socketid s"
    using assms(2,3,4,5) by (simp_all add: st)
  have nx: "?s2 = shutdown (env_writes e' ?s1)"
    using a(1,2) by (rule step_Running_error)
  have t1: "trace ?s1 =
      trace s @ [EvSendmsg (Socketid s) ?f,
                 EvRequestATUTune (\<not> bit (ucast (GetUserIOBits e) :: 8 word) 2)]
        @ replicate (inter_frame_wait e (ucast (GetP2PTTKeyInputs e))) (EvUsleep 500)"
    by (simp add: st cycle_trace)
  have t2: "trace ?s2 = trace ?s1 @ [EvThreadError, EvClose (Socketid s)]"
    using a by (simp add: nx shutdown_def)
  have e2: "pc ?s2 = Exited" "ThreadError ?s2" "\<not> Active ?s2"
    using a by (simp_all add: nx shutdown_def)
  have c0: "count_list (trace s) EvThreadError = 0"
    using run_keeps_fault_count [of cfg pre "OutgoingHighPriority_init cfg garbage sock cmd gfo terr"]
      assms(1,2)
    by (simp add: OutgoingHighPriority_init_def)
  have fin: "pc (run cfg es ?s2) = Exited" "trace (run cfg es ?s2) = trace ?s2"
    "ThreadError (run cfg es ?s2) = ThreadError ?s2" "Active (run cfg es ?s2) = Active ?s2"
    using run_Exited [OF e2(1), of cfg es] by simp_all
  have r: "run cfg (e # e' # es) s = run cfg es ?s2" by simp
  have tr: "trace (run cfg es ?s2) =
      trace s @ [EvSendmsg (Socketid s) ?f,
                 EvRequestATUTune (\<not> bit (ucast (GetUserIOBits e) :: 8 word) 2)]
        @ replicate (inter_frame_wait e (ucast (GetP2PTTKeyInputs e))) (EvUsleep 500)
        @ [EvThreadError, EvClose (Socketid s)]"
    by (simp add: fin(2) t2 t1)
  have sf: "sent_frames (trace (run cfg es ?s2)) = sent_frames (trace s) @ [?f]"
    unfolding tr by (simp add: sent_frames_append)
  have ct: "count_list (trace (run cfg es ?s2)) EvThreadError = 1"
    unfolding tr using c0 by (simp add: count_list_replicate_other)
  show ?thesis
    unfolding Let_def r using fin(1) fin(3) fin(4) e2 tr sf ct by simp
qed

theorem send_failure_is_fatal_witness:
  "pc (run cfg0 [env_fail, env0, env0, env0] (run cfg0 [env0, env0] s0)) = Exited
   \<and> length (sent_frames (trace
        (run cfg0 [env_fail, env0, env0, env0] (run cfg0 [env0, env0] s0)))) =
      Suc (length (sent_frames (trace (run cfg0 [env0, env0] s0))))"
proof -
  let ?s = "run cfg0 [env0, env0] s0"
  have i: "s0 = OutgoingHighPriority_init cfg0 [] 3 0 0 False" by (simp add: s0_def)
  have h0: "?s = run cfg0 [env0, env0] (OutgoingHighPriority_init cfg0 [] 3 0 0 False)"
    by (simp only: i)
  have h: "pc ?s = Running" "\<not> InitError ?s" "SDRActive env_fail" "sendmsg env_fail = - 1"
    by (simp_all add: env_fail_def env0_def s0_def cfg0_def OutgoingHighPriority_init_def
        OutgoingHighPriority_step_def env_writes_def start_run_def Let_def)
  have "pc (run cfg0 (env_fail # env0 # [env0, env0]) ?s) = Exited
      \<and> sent_frames (trace (run cfg0 (env_fail # env0 # [env0, env0]) ?s)) =
          sent_frames (trace ?s) @ [build_frame env_fail (SequenceCounter ?s)
            (GlobalFIFOOverflows ?s OR StickyWrites env_fail) (UDPBuffer ?s)]"
    using send_failure_is_fatal [OF h0 h, of env0 "[env0, env0]"] unfolding Let_def by blast
  then show ?thesis by simp
qed

subsection \<open>The layout of the frame\<close>

lemma zero_outside_fields_iff:
  "zero_outside_fields f = (\<forall>i<length f. i \<notin> set field_offsets \<longrightarrow> f ! i = 0)"
  by (auto simp: zero_outside_fields_def)

lemma zero_outside_build_frame:
  "zero_outside_fields buf \<Longrightarrow> zero_outside_fields (build_frame e q G buf)"
  by (simp add: zero_outside_fields_iff build_frame_other)

lemma zero_outside_replicate: "zero_outside_fields (replicate n 0)"
  by (simp add: zero_outside_fields_iff)

lemma step_keeps_layout:
  assumes "pc s = Running \<longrightarrow>
      length (UDPBuffer s) = VHIGHPRIOTIYFROMSDRSIZE cfg \<and> zero_outside_fields (UDPBuffer s)"
    and "\<forall>f\<in>set (sent_frames (trace s)).
      length f = VHIGHPRIOTIYFROMSDRSIZE cfg \<and> zero_outside_fields f"
  shows "(pc (OutgoingHighPriority_step cfg e s) = Running \<longrightarrow>
      length (UDPBuffer (OutgoingHighPriority_step cfg e s)) = VHIGHPRIOTIYFROMSDRSIZE cfg
        \<and> zero_outside_fields (UDPBuffer (OutgoingHighPriority_step cfg e s)))
    \<and> (\<forall>f\<in>set (sent_frames (trace (OutgoingHighPriority_step cfg e s))).
      length f = VHIGHPRIOTIYFROMSDRSIZE cfg \<and> zero_outside_fields f)"
proof -
  let ?ok = "\<lambda>f. length f = VHIGHPRIOTIYFROMSDRSIZE cfg \<and> zero_outside_fields f"
  consider (poll) "pc s = Idle" "\<not> SDRActive e"
    | (start) "pc s = Idle" "SDRActive e"
    | (cyc) "pc s = Running" "SDRActive e" "\<not> InitError s"
    | (stop) "pc s = Running" "\<not> SDRActive e" "\<not> InitError s"
    | (err) "pc s = Running" "InitError s"
    | (gone) "pc s = Exited"
    by (cases "pc s") auto
  then show ?thesis
  proof cases
    case poll
    then have "OutgoingHighPriority_step cfg e s = idle_poll cfg e (env_writes e s)"
      by (rule step_Idle_poll)
    then show ?thesis
      using assms(2) poll(1) by (simp add: idle_poll_def sent_frames_append)
  next
    case start
    then have "OutgoingHighPriority_step cfg e s = start_run cfg (env_writes e s)"
      by (rule step_Idle_start)
    then show ?thesis
      using assms(2) by (simp add: start_run_def zero_outside_replicate)
  next
    case cyc
    then have st: "OutgoingHighPriority_step cfg e s = cycle e (env_writes e s)"
      by (rule step_Running_cycle)
    have b: "?ok (UDPBuffer s)" using assms(1) cyc(1) by simp
    then have f: "?ok (build_frame e (SequenceCounter s)
        (GlobalFIFOOverflows s OR StickyWrites e) (UDPBuffer s))"
      by (simp add: zero_outside_build_frame)
    show ?thesis
      unfolding st using assms(2) f by (simp add: sent_frames_cycle)
  next
    case stop
    then have "OutgoingHighPriority_step cfg e s = (env_writes e s)\<lparr>pc := Idle\<rparr>"
      by (rule step_Running_stop)
    then show ?thesis using assms(2) by simp
  next
    case err
    then have "OutgoingHighPriority_step cfg e s = shutdown (env_writes e s)"
      by (rule step_Running_error)
    then show ?thesis
      using assms(2) by (simp add: shutdown_def sent_frames_append)
  next
    case gone
    then have "OutgoingHighPriority_step cfg e s = env_writes e s"
      by (rule step_Exited)
    then show ?thesis using assms(2) gone by simp
  qed
qed

lemma run_keeps_layout:
  "(pc s = Running \<longrightarrow>
      length (UDPBuffer s) = VHIGHPRIOTIYFROMSDRSIZE cfg \<and> zero_outside_fields (UDPBuffer s)) \<Longrightarrow>
   (\<forall>f\<in>set (sent_frames (trace s)).
      length f = VHIGHPRIOTIYFROMSDRSIZE cfg \<and> zero_outside_fields f) \<Longrightarrow>
   \<forall>f\<in>set (sent_frames (trace (run cfg es s))).
      length f = VHIGHPRIOTIYFROMSDRSIZE cfg \<and> zero_outside_fields f"
proof (induction es arbitrary: s)
  case Nil
  then show ?case by simp
next
  case (Cons e es)
  note S = step_keeps_layout [OF Cons.prems, of e]
  have "\<forall>f\<in>set (sent_frames (trace (run cfg es (OutgoingHighPriority_step cfg e s)))).
      length f = VHIGHPRIOTIYFROMSDRSIZE cfg \<and> zero_outside_fields f"
    by (rule Cons.IH) (rule S [THEN conjunct1], rule S [THEN conjunct2])
  then show ?case by simp
qed

text \<open>
  C8. Every frame the thread ever sends has the length \<open>VHIGHPRIOTIYFROMSDRSIZE\<close>, and
  all its bytes outside the field offsets are zero. The start of a run fills the whole
  buffer with zeros, and a cycle keeps the length of the buffer and stores only at the
  field offsets.
\<close>

theorem frame_length_fixed_and_zero_outside_fields:
  assumes "60 \<le> VHIGHPRIOTIYFROMSDRSIZE cfg"
  shows "(\<forall>f\<in>set (sent_frames (trace
              (run cfg es (OutgoingHighPriority_init cfg garbage sock cmd gfo terr)))).
            length f = VHIGHPRIOTIYFROMSDRSIZE cfg \<and> zero_outside_fields f)
     \<and> (pc s = Idle \<and> SDRActive e \<longrightarrow>
          UDPBuffer (OutgoingHighPriority_step cfg e s) =
            replicate (VHIGHPRIOTIYFROMSDRSIZE cfg) 0)
     \<and> length (UDPBuffer (cycle e r)) = length (UDPBuffer r)
     \<and> (\<forall>i. i \<notin> set field_offsets \<longrightarrow> UDPBuffer (cycle e r) ! i = UDPBuffer r ! i)"
proof (intro conjI)
  show "\<forall>f\<in>set (sent_frames (trace
              (run cfg es (OutgoingHighPriority_init cfg garbage sock cmd gfo terr)))).
            length f = VHIGHPRIOTIYFROMSDRSIZE cfg \<and> zero_outside_fields f"
    by (rule run_keeps_layout) (simp_all add: OutgoingHighPriority_init_def)
  show "pc s = Idle \<and> SDRActive e \<longrightarrow>
          UDPBuffer (OutgoingHighPriority_step cfg e s) =
            replicate (VHIGHPRIOTIYFROMSDRSIZE cfg) 0"
    by (simp add: OutgoingHighPriority_step_def Let_def start_run_def)
  show "length (UDPBuffer (cycle e r)) = length (UDPBuffer r)" by simp
  show "\<forall>i. i \<notin> set field_offsets \<longrightarrow> UDPBuffer (cycle e r) ! i = UDPBuffer r ! i"
    by (simp add: build_frame_other)
qed

theorem frame_length_fixed_and_zero_outside_fields_witness:
  "length (sent_frames (trace (run cfg0 [env0, env_counts, env_deep] s0)) ! 0) = 60
   \<and> sent_frames (trace (run cfg0 [env0, env_counts, env_deep] s0)) ! 0 ! 8 = 0
   \<and> UDPBuffer (OutgoingHighPriority_step cfg0 env0 s0) = replicate 60 0"
proof -
  let ?fs = "sent_frames (trace (run cfg0 [env0, env_counts, env_deep] s0))"
  have h: "60 \<le> VHIGHPRIOTIYFROMSDRSIZE cfg0" by (simp add: cfg0_def)
  have p: "pc s0 = Idle \<and> SDRActive env0"
    by (simp add: s0_def env0_def OutgoingHighPriority_init_def)
  have ne: "?fs \<noteq> []"
    by (simp add: env0_def env_counts_def env_deep_def s0_def cfg0_def
        OutgoingHighPriority_init_def OutgoingHighPriority_step_def env_writes_def
        start_run_def Let_def cycle_trace sent_frames_append)
  then have m: "?fs ! 0 \<in> set ?fs" by simp
  have i: "s0 = OutgoingHighPriority_init cfg0 [] 3 0 0 False" by (simp add: s0_def)
  have T: "(\<forall>f\<in>set ?fs. length f = VHIGHPRIOTIYFROMSDRSIZE cfg0 \<and> zero_outside_fields f)
     \<and> (pc s0 = Idle \<and> SDRActive env0 \<longrightarrow>
          UDPBuffer (OutgoingHighPriority_step cfg0 env0 s0) =
            replicate (VHIGHPRIOTIYFROMSDRSIZE cfg0) 0)"
    unfolding i
    using frame_length_fixed_and_zero_outside_fields [OF h, of "[env0, env_counts, env_deep]"
        "[]" 3 0 0 False "OutgoingHighPriority_init cfg0 [] 3 0 0 False" env0] by blast
  from T m have f: "length (?fs ! 0) = VHIGHPRIOTIYFROMSDRSIZE cfg0"
    "zero_outside_fields (?fs ! 0)" by blast+
  have z: "?fs ! 0 ! 8 = 0"
    using f by (simp add: zero_outside_fields_iff field_offsets_def cfg0_def)
  from T p have u: "UDPBuffer (OutgoingHighPriority_step cfg0 env0 s0) =
      replicate (VHIGHPRIOTIYFROMSDRSIZE cfg0) 0" by blast
  show ?thesis using f(1) z u by (simp add: cfg0_def)
qed

end
